theory Spec2Isabelle
  imports Complex_Main "HOL-Library.Word" "HOL-Library.Signed_Division" "HOL-Library.Log_Nat"
begin

unbundle bit_operations_syntax

section \<open>Format converter\<close>

subsection \<open>Pixels: AndroidEmulator::convertFramebufferRGB555toRGB565\<close>

text \<open>
  The body of the conversion loop (android_emulator.cpp, lines 226-239).  The C++ operands
  are \<^verbatim>\<open>uint16_t\<close>, promoted to \<^verbatim>\<open>int\<close> for each operator and stored back into
  \<^verbatim>\<open>uint16_t\<close>.  Every intermediate value is below \<open>2 ^ 16\<close> before it is stored
  (\<open>r, g, b \<le> 31\<close>), and truncation to 16 bits commutes with the shifts, masks and ors
  used, so the same operators on \<open>16 word\<close> compute the same values.
\<close>

definition color565_of :: "16 word \<Rightarrow> 16 word" where
  "color565_of color555 =
     (let r = drop_bit 10 color555 AND 0x1F;
          g = drop_bit 5 color555 AND 0x1F;
          b = color555 AND 0x1F;
          g6 = push_bit 1 g OR drop_bit 4 g;
          color565 = push_bit 11 r OR push_bit 5 g6 OR b
      in color565)"

text \<open>
  \<^verbatim>\<open>reinterpret_cast<const uint16_t*>(src)[i]\<close> on the little-endian target: the pixel
  \<open>i\<close> of a byte buffer is made of the bytes \<open>2 * i\<close> (low) and \<open>2 * i + 1\<close> (high).
\<close>

definition load16 :: "8 word list \<Rightarrow> nat \<Rightarrow> 16 word" where
  "load16 buf i = push_bit 8 (ucast (buf ! (2 * i + 1))) OR ucast (buf ! (2 * i))"

definition store16 :: "8 word list \<Rightarrow> nat \<Rightarrow> 16 word \<Rightarrow> 8 word list" where
  "store16 buf i v = (buf[2 * i := ucast v])[2 * i + 1 := ucast (drop_bit 8 v)]"

text \<open>The \<^verbatim>\<open>for (size_t i = 0; i < pixelCount; i++)\<close> loop, started at \<open>i\<close>.\<close>

function convert_loop :: "8 word list \<Rightarrow> nat \<Rightarrow> nat \<Rightarrow> 8 word list \<Rightarrow> 8 word list" where
  "convert_loop src pixelCount i dst =
     (if i < pixelCount
      then convert_loop src pixelCount (Suc i) (store16 dst i (color565_of (load16 src i)))
      else dst)"
  by pat_completeness auto
termination
  by (relation "measure (\<lambda>(src, pixelCount, i, dst). pixelCount - i)") auto

declare convert_loop.simps [simp del]

datatype bridge_error =
    OutOfBounds    \<comment> \<open>a raw pointer is read or written past the end of its buffer\<close>
  | NullArray      \<comment> \<open>a JNI array function is called on a null reference\<close>

text \<open>
  The source passes raw pointers and a count.  Reading \<open>pixelCount\<close> pixels from a shorter
  source buffer, or writing them to a shorter destination, is outside the buffers; the
  model returns \<open>Inl OutOfBounds\<close> there instead of a buffer.
\<close>

definition convertFramebufferRGB555toRGB565 ::
  "8 word list \<Rightarrow> 8 word list \<Rightarrow> nat \<Rightarrow> bridge_error + 8 word list" where
  "convertFramebufferRGB555toRGB565 src dst pixelCount =
     (if length src < 2 * pixelCount \<or> length dst < 2 * pixelCount then Inl OutOfBounds
      else Inr (convert_loop src pixelCount 0 dst))"

text \<open>
  The spec's description of the conversion, bit by bit: red is bits 14-10, green bits 9-5,
  blue bits 4-0 of the input, bit 15 is not used; the output has red in bits 15-11, the
  five green bits in bits 10-6, the green most-significant bit again in bit 5, and blue in
  bits 4-0.
\<close>

definition spec565_bit :: "16 word \<Rightarrow> nat \<Rightarrow> bool" where
  "spec565_bit c n =
     (if n < 5 then bit c n
      else if n = 5 then bit c 9
      else if n < 16 then bit c (n - 1)
      else False)"

subsection \<open>Audio: the loop of nativeGetAudioSamples\<close>

text \<open>
  \<^verbatim>\<open>converted[i] = static_cast<int16_t>(audio[i] ^ 0x8000)\<close> (jni_bridge.cpp, line 228).
  The result is a 16-bit pattern; the host reads it as signed (\<open>sint\<close>).
\<close>

definition audio_convert_sample :: "16 word \<Rightarrow> 16 word" where
  "audio_convert_sample u = u XOR 0x8000"

function audio_convert_loop :: "16 word list \<Rightarrow> nat \<Rightarrow> 16 word list \<Rightarrow> 16 word list" where
  "audio_convert_loop audio i converted =
     (if i < length audio
      then audio_convert_loop audio (Suc i) (converted[i := audio_convert_sample (audio ! i)])
      else converted)"
  by pat_completeness auto
termination
  by (relation "measure (\<lambda>(audio, i, converted). length audio - i)") auto

declare audio_convert_loop.simps [simp del]

text \<open>\<^verbatim>\<open>std::vector<int16_t> converted(audio.size())\<close> is zero-filled, then the loop runs.\<close>

definition audio_convert :: "16 word list \<Rightarrow> 16 word list" where
  "audio_convert audio = audio_convert_loop audio 0 (replicate (length audio) 0)"


section \<open>The external core\<close>

text \<open>
  The emulation engine (class \<^verbatim>\<open>VSmile\<close>, header \<^verbatim>\<open>core/vsmile/vsmile.h\<close>) is consumed
  through its constructor and six member functions.  Its instances are values of a type
  variable \<open>'c\<close>, and its operations are passed to every bridge function as a record.
  The constructor may throw; the exception's \<^verbatim>\<open>what()\<close> text is the \<open>Inl\<close> value.  The
  member functions are taken to return normally.  Log output is not part of any state.
\<close>

datatype VideoTiming = PAL | NTSC

datatype CartType = STANDARD

text \<open>A ROM array of 16-bit words (\<^verbatim>\<open>std::array<word_t, N>\<close>), as a function of the index.\<close>

type_synonym rom = "nat \<Rightarrow> 16 word"

record JoyInput =
  joy_enter :: bool
  joy_help :: bool
  joy_back :: bool
  joy_abc :: bool
  joy_red :: bool
  joy_yellow :: bool
  joy_blue :: bool
  joy_green :: bool
  joy_x :: "32 word"
  joy_y :: "32 word"

record 'c core_ops =
  VSmile_new :: "rom option \<Rightarrow> rom \<Rightarrow> CartType \<Rightarrow> unit option \<Rightarrow> nat \<Rightarrow> bool \<Rightarrow> VideoTiming
                  \<Rightarrow> string + 'c"
  Reset :: "'c \<Rightarrow> 'c"
  RunFrame :: "'c \<Rightarrow> 'c"
  GetPicture :: "'c \<Rightarrow> 8 word list"
  GetAudio :: "'c \<Rightarrow> 16 word list"
  UpdateJoystick :: "JoyInput \<Rightarrow> 'c \<Rightarrow> 'c"
  UpdateOnButton :: "bool \<Rightarrow> 'c \<Rightarrow> 'c"

text \<open>
  Modelled from the spec: the sizes of \<^verbatim>\<open>VSmile::SysRomType\<close> and
  \<^verbatim>\<open>VSmile::CartRomType\<close>, declared in the core's header, which is not part of the bridge
  sources.  The spec gives 2 MiB for the system ROM and 8 MiB for the cartridge slot, as
  does the comment above \<^verbatim>\<open>nativeInit\<close>; \<^verbatim>\<open>word_t\<close> is a 16-bit word.
\<close>

definition sizeof_word_t :: nat where
  "sizeof_word_t = 2"

definition SysRomType_size :: nat where
  "SysRomType_size = 1048576"

definition CartRomType_size :: nat where
  "CartRomType_size = 4194304"

definition sizeof_SysRomType :: nat where
  "sizeof_SysRomType = SysRomType_size * sizeof_word_t"

definition sizeof_CartRomType :: nat where
  "sizeof_CartRomType = CartRomType_size * sizeof_word_t"

text \<open>A value-initialised array, and \<^verbatim>\<open>fill(0)\<close>.\<close>

definition zero_rom :: rom where
  "zero_rom = (\<lambda>i. 0)"

definition fill :: "rom \<Rightarrow> 16 word \<Rightarrow> rom" where
  "fill a v = (\<lambda>i. v)"

text \<open>
  \<^verbatim>\<open>std::memcpy(dst, src, n)\<close> from a byte buffer into a word array, little-endian: word
  \<open>i\<close> receives the bytes \<open>2 * i\<close> and \<open>2 * i + 1\<close>; when \<open>n\<close> is odd the last word touched
  keeps its high byte.  Every caller passes \<open>n \<le> length src\<close>.
\<close>

definition memcpy_words :: "rom \<Rightarrow> 8 word list \<Rightarrow> nat \<Rightarrow> rom" where
  "memcpy_words dst src n =
     (\<lambda>i. if 2 * i + 1 < n then push_bit 8 (ucast (src ! (2 * i + 1))) OR ucast (src ! (2 * i))
          else if 2 * i < n then (dst i AND 0xFF00) OR ucast (src ! (2 * i))
          else dst i)"

section \<open>Single-precision arithmetic\<close>

text \<open>
  A \<^verbatim>\<open>float\<close> is an IEEE 754 binary32 value: \<open>Finite s m e\<close> is \<open>(-1)^s * m * 2^e\<close> (the sign
  is kept for zero too), \<open>Infinity s\<close> is the infinity of sign \<open>s\<close>.
\<close>

datatype f32 = Finite bool int int | Infinity bool | NaN

text \<open>
  The quotient \<open>n / d\<close> (\<open>0 \<le> n\<close>, \<open>0 < d\<close>) rounded to the nearest integer, ties to the
  even one.
\<close>

definition round_half_even :: "int \<Rightarrow> int \<Rightarrow> int" where
  "round_half_even n d =
     (let q = n div d; r = n mod d
      in if 2 * r < d then q
         else if d < 2 * r then q + 1
         else if even q then q else q + 1)"

text \<open>
  The exponent of \<open>n / d\<close> (\<open>0 < n\<close>, \<open>0 < d\<close>): the \<open>e\<close> with \<open>2^e \<le> n / d < 2^(e + 1)\<close>, from
  the bit lengths and one comparison.
\<close>

definition floor_log2 :: "int \<Rightarrow> int \<Rightarrow> int" where
  "floor_log2 n d =
     (let k = bitlen n - bitlen d
      in if (if 0 \<le> k then n < d * 2 ^ nat k else n * 2 ^ nat (- k) < d) then k - 1 else k)"

text \<open>
  Rounding \<open>n / d\<close> to binary32, to nearest, ties to even: 24 significant bits, so the last
  mantissa bit has exponent \<open>e - 23\<close>, and not below \<open>-149\<close> (subnormal numbers); a
  result of \<open>2^128\<close> or more is infinity.
\<close>

definition f32_round :: "bool \<Rightarrow> int \<Rightarrow> int \<Rightarrow> f32" where
  "f32_round sign n d =
     (if n = 0 then Finite sign 0 0
      else
        let e = floor_log2 n d;
            p = max (e - 23) (- 149);
            m = (if 0 \<le> p then round_half_even n (d * 2 ^ nat p)
                 else round_half_even (n * 2 ^ nat (- p)) d)
        in if 104 < p \<or> (p = 104 \<and> 2 ^ 24 \<le> m) then Infinity sign else Finite sign m p)"

text \<open>Rounding \<open>n / d * 2^e\<close>.\<close>

definition f32_scaled :: "bool \<Rightarrow> int \<Rightarrow> int \<Rightarrow> int \<Rightarrow> f32" where
  "f32_scaled sign n d e =
     (if 0 \<le> e then f32_round sign (n * 2 ^ nat e) d else f32_round sign n (d * 2 ^ nat (- e)))"

text \<open>
  The three operations of \<^verbatim>\<open>frameCount_ * 1000.0f / elapsed\<close>: the conversion of an integer
  to \<^verbatim>\<open>float\<close>, the product and the quotient of two \<^verbatim>\<open>float\<close>s, each rounded once.
\<close>

definition f32_of_int :: "int \<Rightarrow> f32" where
  "f32_of_int n = f32_round (n < 0) \<bar>n\<bar> 1"

fun f32_mult :: "f32 \<Rightarrow> f32 \<Rightarrow> f32" where
  "f32_mult NaN y = NaN"
| "f32_mult x NaN = NaN"
| "f32_mult (Infinity s1) (Infinity s2) = Infinity (s1 \<noteq> s2)"
| "f32_mult (Infinity s1) (Finite s2 m2 e2) = (if m2 = 0 then NaN else Infinity (s1 \<noteq> s2))"
| "f32_mult (Finite s1 m1 e1) (Infinity s2) = (if m1 = 0 then NaN else Infinity (s1 \<noteq> s2))"
| "f32_mult (Finite s1 m1 e1) (Finite s2 m2 e2) = f32_scaled (s1 \<noteq> s2) (m1 * m2) 1 (e1 + e2)"

fun f32_div :: "f32 \<Rightarrow> f32 \<Rightarrow> f32" where
  "f32_div NaN y = NaN"
| "f32_div x NaN = NaN"
| "f32_div (Infinity s1) (Infinity s2) = NaN"
| "f32_div (Infinity s1) (Finite s2 m2 e2) = Infinity (s1 \<noteq> s2)"
| "f32_div (Finite s1 m1 e1) (Infinity s2) = Finite (s1 \<noteq> s2) 0 0"
| "f32_div (Finite s1 m1 e1) (Finite s2 m2 e2) =
     (if m2 = 0 then (if m1 = 0 then NaN else Infinity (s1 \<noteq> s2))
      else f32_scaled (s1 \<noteq> s2) m1 m2 (e1 - e2))"



text \<open>The literal \<^verbatim>\<open>1000.0f\<close>, and \<^verbatim>\<open>0.0f\<close>.\<close>

definition f32_1000 :: f32 where
  "f32_1000 = Finite False 125 3"

definition f32_zero :: f32 where
  "f32_zero = Finite False 0 0"

section \<open>The wrapper class AndroidEmulator\<close>

definition DISPLAY_WIDTH :: nat where
  "DISPLAY_WIDTH = 320"

definition DISPLAY_HEIGHT :: nat where
  "DISPLAY_HEIGHT = 240"

definition FRAMEBUFFER_SIZE :: nat where
  "FRAMEBUFFER_SIZE = DISPLAY_WIDTH * DISPLAY_HEIGHT * 2"

record ControllerInput =
  in_enter :: bool
  in_help :: bool
  in_back :: bool
  in_abc :: bool
  in_red :: bool
  in_yellow :: bool
  in_blue :: bool
  in_green :: bool
  joystickX :: "32 word"
  joystickY :: "32 word"

text \<open>
  The members of the class; the member \<^verbatim>\<open>emulator_\<close> is the field \<open>m_emulator\<close>, and so
  on.  Time points are clock ticks (nanoseconds) as integers;
  \<^verbatim>\<open>Clock::now()\<close> is an argument of the functions that read the clock.  \<^verbatim>\<open>frameCount_\<close>
  is a 32-bit \<^verbatim>\<open>int\<close>; incrementing it past \<open>2^31 - 1\<close> is undefined in C++ and wraps
  around here.  \<^verbatim>\<open>currentFPS_\<close> is a \<^verbatim>\<open>float\<close>.
\<close>

record 'c AndroidEmulator =
  m_emulator :: "'c option"
  m_framebuffer :: "8 word list"
  m_audioBuffer :: "16 word list"
  m_paused :: bool
  m_lastFrameTime :: int
  m_currentFPS :: f32
  m_frameCount :: "32 word"
  m_fpsUpdateTime :: int

text \<open>The constructor: \<^verbatim>\<open>framebuffer_.resize(FRAMEBUFFER_SIZE)\<close> appends zero bytes.\<close>

definition AndroidEmulator_new :: "int \<Rightarrow> 'c AndroidEmulator" where
  "AndroidEmulator_new now =
     \<lparr> m_emulator = None,
       m_framebuffer = replicate FRAMEBUFFER_SIZE 0,
       m_audioBuffer = [],
       m_paused = False,
       m_lastFrameTime = now,
       m_currentFPS = f32_zero,
       m_frameCount = 0,
       m_fpsUpdateTime = now \<rparr>"

text \<open>
  \<^verbatim>\<open>AndroidEmulator::initialize\<close>.  A pointer with its size is a byte list, \<open>None\<close> for
  \<^verbatim>\<open>nullptr\<close>.  The result is the returned flag and the object after the call.
\<close>

definition initialize ::
  "'c core_ops \<Rightarrow> 8 word list option \<Rightarrow> 8 word list option \<Rightarrow> VideoTiming \<Rightarrow> 'c AndroidEmulator
     \<Rightarrow> bool \<times> 'c AndroidEmulator" where
  "initialize ops biosData romData timing s =
     (case romData of
        None \<Rightarrow> (False, s)
      | Some rom_bytes \<Rightarrow>
          if length rom_bytes = 0 then (False, s)
          else
            let sysRom =
                  (case biosData of
                     None \<Rightarrow> None
                   | Some bios_bytes \<Rightarrow>
                       if length bios_bytes > 0
                       then Some (memcpy_words zero_rom bios_bytes
                                    (min (length bios_bytes) (SysRomType_size * sizeof_word_t)))
                       else None);
                cartRom = memcpy_words zero_rom rom_bytes
                            (min (length rom_bytes) (CartRomType_size * sizeof_word_t))
            in case VSmile_new ops sysRom cartRom STANDARD None 0xe True timing of
                 Inl e \<Rightarrow> (False, s)
               | Inr c \<Rightarrow> (True, s\<lparr>m_emulator := Some c\<rparr>))"

text \<open>
  \<^verbatim>\<open>AndroidEmulator::updateFPS\<close>.  \<^verbatim>\<open>duration_cast<milliseconds>\<close> divides the tick
  difference by \<open>10 ^ 6\<close>, truncating towards zero.  In
  \<^verbatim>\<open>frameCount_ * 1000.0f / elapsed\<close> the \<^verbatim>\<open>int\<close> and the \<^verbatim>\<open>long long\<close> are converted to
  \<^verbatim>\<open>float\<close> and both operations are \<^verbatim>\<open>float\<close> operations.
\<close>

definition updateFPS :: "int \<Rightarrow> 'c AndroidEmulator \<Rightarrow> 'c AndroidEmulator" where
  "updateFPS now s =
     (let s1 = s\<lparr>m_frameCount := m_frameCount s + 1\<rparr>;
          elapsed = (now - m_fpsUpdateTime s1) sdiv 1000000
      in if elapsed \<ge> 1000
         then s1\<lparr>m_currentFPS := f32_div (f32_mult (f32_of_int (sint (m_frameCount s1))) f32_1000)
                                         (f32_of_int elapsed),
                 m_frameCount := 0,
                 m_fpsUpdateTime := now\<rparr>
         else s1)"

definition runFrame :: "'c core_ops \<Rightarrow> int \<Rightarrow> 'c AndroidEmulator \<Rightarrow> bridge_error + 'c AndroidEmulator" where
  "runFrame ops now s =
     (case m_emulator s of
        None \<Rightarrow> Inr s
      | Some e \<Rightarrow>
          if m_paused s then Inr s
          else
            let e1 = RunFrame ops e;
                picture = GetPicture ops e1
            in case convertFramebufferRGB555toRGB565 picture (m_framebuffer s)
                      (DISPLAY_WIDTH * DISPLAY_HEIGHT) of
                 Inl err \<Rightarrow> Inl err
               | Inr fb \<Rightarrow>
                   Inr (updateFPS now
                          (s\<lparr>m_emulator := Some e1, m_framebuffer := fb, m_audioBuffer := GetAudio ops e1\<rparr>)))"

definition updateInput :: "'c core_ops \<Rightarrow> ControllerInput \<Rightarrow> 'c AndroidEmulator \<Rightarrow> 'c AndroidEmulator" where
  "updateInput ops input s =
     (case m_emulator s of
        None \<Rightarrow> s
      | Some e \<Rightarrow>
          let joyInput = \<lparr> joy_enter = in_enter input, joy_help = in_help input,
                           joy_back = in_back input, joy_abc = in_abc input,
                           joy_red = in_red input, joy_yellow = in_yellow input,
                           joy_blue = in_blue input, joy_green = in_green input,
                           joy_x = joystickX input, joy_y = joystickY input \<rparr>
          in s\<lparr>m_emulator := Some (UpdateJoystick ops joyInput e)\<rparr>)"

definition getFramebuffer :: "'c AndroidEmulator \<Rightarrow> 8 word list" where
  "getFramebuffer s = m_framebuffer s"

definition getFramebufferSize :: "'c AndroidEmulator \<Rightarrow> nat" where
  "getFramebufferSize s = length (m_framebuffer s)"

definition getAudioSamples :: "'c AndroidEmulator \<Rightarrow> 16 word list" where
  "getAudioSamples s = m_audioBuffer s"

definition getAudioSampleCount :: "'c AndroidEmulator \<Rightarrow> nat" where
  "getAudioSampleCount s = length (m_audioBuffer s)"

definition pause :: "'c AndroidEmulator \<Rightarrow> 'c AndroidEmulator" where
  "pause s = s\<lparr>m_paused := True\<rparr>"

definition resume :: "'c AndroidEmulator \<Rightarrow> 'c AndroidEmulator" where
  "resume s = s\<lparr>m_paused := False\<rparr>"

definition reset :: "'c core_ops \<Rightarrow> 'c AndroidEmulator \<Rightarrow> 'c AndroidEmulator" where
  "reset ops s =
     (case m_emulator s of
        None \<Rightarrow> s
      | Some e \<Rightarrow> s\<lparr>m_emulator := Some (Reset ops e)\<rparr>)"

definition isPaused :: "'c AndroidEmulator \<Rightarrow> bool" where
  "isPaused s = m_paused s"


text \<open>\<^verbatim>\<open>saveState\<close> and \<^verbatim>\<open>loadState\<close> are not implemented: they read and change nothing.\<close>

definition saveState :: "'c AndroidEmulator \<Rightarrow> 8 word list" where
  "saveState s = []"

definition loadState :: "8 word list \<Rightarrow> 'c AndroidEmulator \<Rightarrow> bool" where
  "loadState data s = False"

section \<open>The JNI entry points\<close>

text \<open>
  The globals of jni_bridge.cpp: the instance \<^verbatim>\<open>g_vsmile\<close> (\<open>None\<close> when the pointer is
  empty) and the function-local static \<^verbatim>\<open>frame_counter\<close> of \<^verbatim>\<open>nativeRunFrame\<close>.
\<close>

record 'c bridge_state =
  g_vsmile :: "'c option"
  frame_counter :: "32 word"

definition bridge_start :: "'c bridge_state" where
  "bridge_start = \<lparr> g_vsmile = None, frame_counter = 0 \<rparr>"

text \<open>The dummy system ROM: \<^verbatim>\<open>for (int i = 0xfffc0; i < 0xfffdc; i += 2)\<close>, started at \<open>i\<close>.\<close>

function dummy_boot_loop :: "nat \<Rightarrow> rom \<Rightarrow> rom" where
  "dummy_boot_loop i sysrom_data =
     (if i < 0xfffdc
      then dummy_boot_loop (i + 2) (sysrom_data(i + 1 := 0x31))
      else sysrom_data)"
  by pat_completeness auto
termination
  by (relation "measure (\<lambda>(i, sysrom_data). 0xfffdc - i)") auto

declare dummy_boot_loop.simps [simp del]

text \<open>
  \<^verbatim>\<open>nativeInit\<close>.  A \<^verbatim>\<open>jbyteArray\<close> is a byte list, \<open>None\<close> for a null reference; its
  length is what \<^verbatim>\<open>GetArrayLength\<close> returns.  The argument \<^verbatim>\<open>cartSize\<close> is not read by
  the function.  \<^verbatim>\<open>GetByteArrayElements\<close> is called on \<^verbatim>\<open>cartrom\<close> without a null test;
  JNI leaves that call undefined, and the model returns \<open>Inl NullArray\<close> for it.  The
  other results are the returned \<^verbatim>\<open>jboolean\<close> and the globals after the call.
  \<open>sysrom_step\<close> is the system ROM image, or \<open>None\<close> when the function has returned at the
  system ROM size test.  The new instance is assigned to \<^verbatim>\<open>g_vsmile\<close> only after the
  constructor has returned, so an exception leaves the old instance in place.
\<close>

definition nativeInit ::
  "'c core_ops \<Rightarrow> 8 word list option \<Rightarrow> 8 word list option \<Rightarrow> 32 word \<Rightarrow> bool \<Rightarrow> 'c bridge_state
     \<Rightarrow> bridge_error + (bool \<times> 'c bridge_state)" where
  "nativeInit ops sysrom cartrom cartSize usePAL st =
     (let sysrom_data0 = zero_rom;
          sysrom_step =
            (case sysrom of
               Some sysrom_bytes \<Rightarrow>
                 let sysrom_len = length sysrom_bytes
                 in if sysrom_len \<noteq> sizeof_SysRomType then None
                    else Some (memcpy_words sysrom_data0 sysrom_bytes sysrom_len)
             | None \<Rightarrow> Some (dummy_boot_loop 0xfffc0 (fill sysrom_data0 0)))
      in case sysrom_step of
           None \<Rightarrow> Inr (False, st)
         | Some sysrom_data \<Rightarrow>
             let cartrom_data0 = fill zero_rom 0
             in case cartrom of
                  None \<Rightarrow> Inl NullArray
                | Some cartrom_bytes \<Rightarrow>
                    let cartrom_len = length cartrom_bytes
                    in if cartrom_len \<le> 0 \<or> cartrom_len > sizeof_CartRomType then Inr (False, st)
                       else
                         let cartrom_data = memcpy_words cartrom_data0 cartrom_bytes cartrom_len;
                             timing = (if usePAL then PAL else NTSC)
                         in case VSmile_new ops (Some sysrom_data) cartrom_data STANDARD None 0xe
                                   True timing of
                              Inl e \<Rightarrow> Inr (False, st)
                            | Inr c \<Rightarrow> Inr (True, st\<lparr>g_vsmile := Some (Reset ops c)\<rparr>))"

definition nativeRunFrame :: "'c core_ops \<Rightarrow> 'c bridge_state \<Rightarrow> 'c bridge_state" where
  "nativeRunFrame ops st =
     (case g_vsmile st of
        None \<Rightarrow> st
      | Some c \<Rightarrow> st\<lparr>g_vsmile := Some (RunFrame ops c), frame_counter := frame_counter st + 1\<rparr>)"

text \<open>
  The JNI array functions the entry points use.  Whether the VM can allocate an array of a
  given length is a property of the environment (\<open>alloc_ok\<close>); a negative length yields a
  null reference.  New arrays are zero-filled.  \<^verbatim>\<open>Set...ArrayRegion\<close> leaves the array as
  it is when the region does not fit.  \<^verbatim>\<open>static_cast<jsize>\<close> converts a \<^verbatim>\<open>size_t\<close> to a
  signed 32-bit integer.
\<close>

record jni_env =
  alloc_ok :: "int \<Rightarrow> bool"

definition jsize_of :: "nat \<Rightarrow> int" where
  "jsize_of n = (let m = int n mod 2 ^ 32 in if m < 2 ^ 31 then m else m - 2 ^ 32)"

definition NewByteArray :: "jni_env \<Rightarrow> int \<Rightarrow> 8 word list option" where
  "NewByteArray env n = (if n < 0 \<or> \<not> alloc_ok env n then None else Some (replicate (nat n) 0))"

definition NewShortArray :: "jni_env \<Rightarrow> int \<Rightarrow> 16 word list option" where
  "NewShortArray env n = (if n < 0 \<or> \<not> alloc_ok env n then None else Some (replicate (nat n) 0))"

definition SetArrayRegion :: "'a list \<Rightarrow> int \<Rightarrow> int \<Rightarrow> 'a list \<Rightarrow> 'a list" where
  "SetArrayRegion arr start len buf =
     (if start < 0 \<or> len < 0 \<or> start + len > int (length arr) then arr
      else take (nat start) arr @ take (nat len) buf @ drop (nat (start + len)) arr)"

definition nativeGetFrameBuffer :: "'c core_ops \<Rightarrow> jni_env \<Rightarrow> 'c bridge_state \<Rightarrow> 8 word list option" where
  "nativeGetFrameBuffer ops env st =
     (case g_vsmile st of
        None \<Rightarrow> None
      | Some c \<Rightarrow>
          let picture = GetPicture ops c
          in if length picture = 0 then NewByteArray env 0
             else case NewByteArray env (jsize_of (length picture)) of
                    None \<Rightarrow> None
                  | Some result \<Rightarrow>
                      Some (SetArrayRegion result 0 (jsize_of (length picture)) picture))"

definition nativeGetAudioSamples :: "'c core_ops \<Rightarrow> jni_env \<Rightarrow> 'c bridge_state \<Rightarrow> 16 word list option" where
  "nativeGetAudioSamples ops env st =
     (case g_vsmile st of
        None \<Rightarrow> None
      | Some c \<Rightarrow>
          let audio = GetAudio ops c
          in case NewShortArray env (jsize_of (length audio)) of
               None \<Rightarrow> None
             | Some result \<Rightarrow>
                 let converted = audio_convert audio
                 in Some (SetArrayRegion result 0 (jsize_of (length converted)) converted))"

definition nativeSendInput ::
  "'c core_ops \<Rightarrow> bool \<Rightarrow> bool \<Rightarrow> bool \<Rightarrow> bool \<Rightarrow> bool \<Rightarrow> bool \<Rightarrow> bool \<Rightarrow> bool \<Rightarrow> 32 word \<Rightarrow> 32 word
     \<Rightarrow> 'c bridge_state \<Rightarrow> 'c bridge_state" where
  "nativeSendInput ops enter help back abc red yellow blue green joyX joyY st =
     (case g_vsmile st of
        None \<Rightarrow> st
      | Some c \<Rightarrow>
          let input = \<lparr> joy_enter = enter, joy_help = help, joy_back = back, joy_abc = abc,
                        joy_red = red, joy_yellow = yellow, joy_blue = blue, joy_green = green,
                        joy_x = joyX, joy_y = joyY \<rparr>
          in st\<lparr>g_vsmile := Some (UpdateJoystick ops input c)\<rparr>)"

definition nativePressOnButton :: "'c core_ops \<Rightarrow> bool \<Rightarrow> 'c bridge_state \<Rightarrow> 'c bridge_state" where
  "nativePressOnButton ops pressed st =
     (case g_vsmile st of
        None \<Rightarrow> st
      | Some c \<Rightarrow> st\<lparr>g_vsmile := Some (UpdateOnButton ops pressed c)\<rparr>)"

definition nativeDestroy :: "'c bridge_state \<Rightarrow> 'c bridge_state" where
  "nativeDestroy st = st\<lparr>g_vsmile := None\<rparr>"

section \<open>Call sequences\<close>

text \<open>Any number of \<^verbatim>\<open>runFrame\<close> calls in a row, the clock reading \<open>now\<close> at each.\<close>

fun runFrames :: "'c core_ops \<Rightarrow> int list \<Rightarrow> 'c AndroidEmulator \<Rightarrow> bridge_error + 'c AndroidEmulator" where
  "runFrames ops [] s = Inr s"
| "runFrames ops (now # ts) s =
     (case runFrame ops now s of Inl err \<Rightarrow> Inl err | Inr s' \<Rightarrow> runFrames ops ts s')"

text \<open>The public member functions that change an AndroidEmulator object, as calls.\<close>

datatype call =
    Initialize "8 word list option" "8 word list option" VideoTiming
  | RunFrameAt int
  | UpdateInput ControllerInput
  | Pause
  | Resume
  | ResetCore
  | SaveState
  | LoadState "8 word list"

fun do_call :: "'c core_ops \<Rightarrow> call \<Rightarrow> 'c AndroidEmulator \<Rightarrow> bridge_error + 'c AndroidEmulator" where
  "do_call ops (Initialize biosData romData timing) s = Inr (snd (initialize ops biosData romData timing s))"
| "do_call ops (RunFrameAt now) s = runFrame ops now s"
| "do_call ops (UpdateInput input) s = Inr (updateInput ops input s)"
| "do_call ops Pause s = Inr (pause s)"
| "do_call ops Resume s = Inr (resume s)"
| "do_call ops ResetCore s = Inr (reset ops s)"
| "do_call ops SaveState s = Inr s"
| "do_call ops (LoadState data) s = Inr s"

fun do_calls :: "'c core_ops \<Rightarrow> call list \<Rightarrow> 'c AndroidEmulator \<Rightarrow> bridge_error + 'c AndroidEmulator" where
  "do_calls ops [] s = Inr s"
| "do_calls ops (c # cs) s =
     (case do_call ops c s of Inl err \<Rightarrow> Inl err | Inr s' \<Rightarrow> do_calls ops cs s')"

text \<open>
  A call steps the core when it is a \<^verbatim>\<open>runFrame\<close> on an object that is not paused and
  holds an instance.  \<open>no_frame_yet\<close> says that no call of a sequence does.
\<close>

fun steps_core :: "call \<Rightarrow> 'c AndroidEmulator \<Rightarrow> bool" where
  "steps_core (RunFrameAt now) s = (\<not> m_paused s \<and> m_emulator s \<noteq> None)"
| "steps_core c s = False"

fun no_frame_yet :: "'c core_ops \<Rightarrow> call list \<Rightarrow> 'c AndroidEmulator \<Rightarrow> bool" where
  "no_frame_yet ops [] s = True"
| "no_frame_yet ops (c # cs) s =
     (if steps_core c s then False
      else case do_call ops c s of Inl err \<Rightarrow> True | Inr s' \<Rightarrow> no_frame_yet ops cs s')"

text \<open>Repeated \<^verbatim>\<open>nativeDestroy\<close>.\<close>

fun destroy_times :: "nat \<Rightarrow> 'c bridge_state \<Rightarrow> 'c bridge_state" where
  "destroy_times 0 st = st"
| "destroy_times (Suc n) st = destroy_times n (nativeDestroy st)"

text \<open>
  A core for evaluating the bridge at concrete inputs: its instance is a counter, \<open>0\<close>
  when constructed, \<open>1\<close> after \<open>Reset\<close>, one more after each frame; its constructor always
  succeeds, its picture is one black frame and its audio two samples.
\<close>

definition stub_core :: "nat core_ops" where
  "stub_core =
     \<lparr> VSmile_new = (\<lambda>sys crt ct nv rc logo t. Inr 0),
       Reset = (\<lambda>c. 1),
       RunFrame = (\<lambda>c. Suc c),
       GetPicture = (\<lambda>c. replicate 153600 0),
       GetAudio = (\<lambda>c. [0, 0xFFFF]),
       UpdateJoystick = (\<lambda>j c. c),
       UpdateOnButton = (\<lambda>b c. c) \<rparr>"

definition stub_env :: jni_env where
  "stub_env = \<lparr> alloc_ok = (\<lambda>n. True) \<rparr>"

text \<open>An object that holds an instance, and globals that hold one that has run four frames.\<close>

definition stub_emulator :: "nat AndroidEmulator" where
  "stub_emulator = (AndroidEmulator_new 0)\<lparr>m_emulator := Some 0\<rparr>"

definition stub_bridge :: "nat bridge_state" where
  "stub_bridge = bridge_start\<lparr>g_vsmile := Some 5\<rparr>"



text \<open>A call sequence that does not step the core.\<close>

definition stub_calls :: "call list" where
  "stub_calls = [Pause, RunFrameAt 5, Resume, Initialize None (Some [0]) NTSC, ResetCore]"

section \<open>Properties of the format converter\<close>

lemma mask5_numeral: "(0x1F::16 word) = mask 5"
  by (simp add: mask_eq_exp_minus_1)

lemma mask15_numeral: "(0x7FFF::16 word) = mask 15"
  by (simp add: mask_eq_exp_minus_1)

lemma color565_of_bit: "bit (color565_of c) n = spec565_bit c n"
proof (cases "n < 16")
  case False
  then have "\<not> bit (color565_of c) n" by (auto dest: bit_imp_le_length)
  with False show ?thesis by (simp add: spec565_bit_def)
next
  case True
  have *: "bit (color565_of c) n \<longleftrightarrow>
    (11 \<le> n \<and> bit c (10 + (n - 11)) \<and> n - 11 < 5) \<or>
    (5 \<le> n \<and> ((1 \<le> n - 5 \<and> bit c (5 + (n - 5 - 1)) \<and> n - 5 - 1 < 5) \<or> (bit c (5 + (4 + (n - 5))) \<and> 4 + (n - 5) < 5))) \<or>
    (bit c n \<and> n < 5)"
    using True
    by (simp only: color565_of_def Let_def mask5_numeral bit_or_iff bit_and_iff bit_push_bit_iff
        bit_drop_bit_eq bit_mask_iff possible_bit_word) (auto simp: bit_simps)
  show ?thesis unfolding * spec565_bit_def using True
    by (auto simp: bit_imp_le_length) 
qed

lemma color565_of_top_bit: "color565_of (c AND 0x7FFF) = color565_of c"
proof (rule bit_word_eqI)
  fix n assume "n < LENGTH(16)"
  then have "n < 16" by simp
  then show "bit (color565_of (c AND 0x7FFF)) n = bit (color565_of c) n"
    unfolding color565_of_bit
    by  (auto simp add: spec565_bit_def mask15_numeral bit_and_iff bit_mask_iff)
qed

lemma length_store16: "length (store16 buf i v) = length buf"
  by (simp add: store16_def)

lemma load16_store16_same: "2 * i + 1 < length buf \<Longrightarrow> load16 (store16 buf i v) i = v"
  unfolding load16_def store16_def
  by (rule bit_word_eqI) (auto simp add: bit_simps)

lemma load16_store16_other: "j \<noteq> i \<Longrightarrow> load16 (store16 buf i v) j = load16 buf j"
  unfolding load16_def store16_def by simp

lemma length_convert_loop: "length (convert_loop src n i dst) = length dst"
proof (induction src n i dst rule: convert_loop.induct)
  case (1 src pixelCount i dst)
  then show ?case
    by (subst convert_loop.simps) (simp add: length_store16)
qed

lemma load16_convert_loop:
  "2 * n \<le> length dst \<Longrightarrow> j < n \<Longrightarrow>
   load16 (convert_loop src n i dst) j = (if i \<le> j then color565_of (load16 src j) else load16 dst j)"
proof (induction src n i dst rule: convert_loop.induct)
  case (1 src pixelCount i dst)
  show ?case
  proof (cases "i < pixelCount")
    case False
    with "1.prems" show ?thesis by (subst convert_loop.simps) simp
  next
    case True
    let ?d = "store16 dst i (color565_of (load16 src i))"
    have len: "2 * pixelCount \<le> length ?d" using "1.prems" by (simp add: length_store16)
    have step: "convert_loop src pixelCount i dst = convert_loop src pixelCount (Suc i) ?d"
      using True by (subst convert_loop.simps) simp
    have IH: "load16 (convert_loop src pixelCount (Suc i) ?d) j =
       (if Suc i \<le> j then color565_of (load16 src j) else load16 ?d j)"
      using "1.IH" [OF True len "1.prems"(2)] .
    show ?thesis
    proof (cases "j = i")
      case True
      have "2 * i + 1 < length dst" using \<open>i < pixelCount\<close> "1.prems" by simp
      then show ?thesis unfolding step IH using True by (simp add: load16_store16_same)
    next
      case False
      then show ?thesis unfolding step IH by (auto simp: load16_store16_other)
    qed
  qed
qed

lemma length_audio_convert_loop: "length (audio_convert_loop audio i conv) = length conv"
proof (induction audio i conv rule: audio_convert_loop.induct)
  case (1 audio i converted)
  then show ?case by (subst audio_convert_loop.simps) simp
qed

lemma nth_audio_convert_loop:
  "length conv = length audio \<Longrightarrow> k < length audio \<Longrightarrow>
   audio_convert_loop audio i conv ! k = (if i \<le> k then audio_convert_sample (audio ! k) else conv ! k)"
proof (induction audio i conv rule: audio_convert_loop.induct)
  case (1 audio i converted)
  show ?case
  proof (cases "i < length audio")
    case False
    with "1.prems" show ?thesis by (subst audio_convert_loop.simps) simp
  next
    case True
    let ?c = "converted[i := audio_convert_sample (audio ! i)]"
    have IH: "audio_convert_loop audio (Suc i) ?c ! k =
        (if Suc i \<le> k then audio_convert_sample (audio ! k) else ?c ! k)"
      using "1.IH" [OF True _ "1.prems"(2)] "1.prems"(1) by simp
    have step: "audio_convert_loop audio i converted = audio_convert_loop audio (Suc i) ?c"
      using True by (subst audio_convert_loop.simps) simp
    show ?thesis
    proof (cases "k = i")
      case True
      then show ?thesis unfolding step IH using "1.prems" by simp
    next
      case False
      then show ?thesis unfolding step IH by auto
    qed
  qed
qed

lemma audio_convert_map: "audio_convert audio = map audio_convert_sample audio"
  by (rule nth_equalityI)
     (simp_all add: audio_convert_def length_audio_convert_loop nth_audio_convert_loop)

lemma bit_0x8000_int: "bit (0x8000 :: int) n \<longleftrightarrow> n = 15"
proof -
  have "(0x8000 :: int) = 2 ^ 15" by simp
  then show ?thesis by (simp only: bit_exp_iff) auto
qed

lemma audio_convert_sample_minus: "audio_convert_sample u = u - 0x8000"
proof -
  define v where "v = u XOR 0x8000"
  have uv: "v XOR 0x8000 = u" by (simp add: v_def xor.assoc)
  have twice: "(0x8000 :: 16 word) + 0x8000 = 0" by simp
  have "v = u + 0x8000"
  proof (cases "bit u 15")
    case False
    have "u AND 0x8000 = 0"
      by (rule bit_word_eqI) (use False in \<open>auto simp: bit_and_iff bit_0x8000_int\<close>)
    then show ?thesis unfolding v_def by (simp add: disjunctive_add_eq_xor)
  next
    case True
    have "v AND 0x8000 = 0"
      unfolding v_def
      by (rule bit_word_eqI) (use True in \<open>auto simp: bit_and_iff bit_xor_iff bit_0x8000_int\<close>)
    then have "v + 0x8000 = u" by (simp add: disjunctive_add_eq_xor uv)
    then have "u + 0x8000 = v + (0x8000 + 0x8000)" by (simp only: add.assoc[symmetric])
    then show ?thesis by (simp only: twice add_0_right)
  qed
  then show ?thesis unfolding audio_convert_sample_def v_def by simp
qed

lemma sint_audio_convert_sample: "sint (audio_convert_sample u) = uint u - 32768"
proof -
  have "((uint u - 32768) mod 65536 + 32768) mod 65536 = uint u mod 65536"
    by (simp add: mod_add_left_eq)
  then have "sint (u - 0x8000) = uint u mod 65536 - 32768"
    by (simp add: sint_uint uint_word_ariths signed_take_bit_eq_take_bit_shift take_bit_eq_mod)
  moreover have "uint u mod 65536 = uint u"
    using uint_lt2p [of u] by simp
  ultimately show ?thesis by (simp add: audio_convert_sample_minus)
qed

lemma jsize_of_small: "n < 2 ^ 31 \<Longrightarrow> jsize_of n = int n"
proof -
  assume "n < 2 ^ 31"
  then have "int n < 2 ^ 31" by (metis of_nat_less_iff of_nat_numeral of_nat_power)
  then show ?thesis by (simp add: jsize_of_def Let_def)
qed

lemma SetArrayRegion_whole:
  "length arr = length buf \<Longrightarrow> SetArrayRegion arr 0 (int (length buf)) buf = buf"
  by (simp add: SetArrayRegion_def)

lemma nativeGetAudioSamples_present:
  assumes "g_vsmile st = Some c" and "length (GetAudio ops c) < 2 ^ 31"
    and "alloc_ok env (int (length (GetAudio ops c)))"
  shows "nativeGetAudioSamples ops env st = Some (map audio_convert_sample (GetAudio ops c))"
  using assms
  by (simp add: nativeGetAudioSamples_def Let_def NewShortArray_def jsize_of_small
      audio_convert_map SetArrayRegion_def)

text \<open>
  Claim C4.  The pixel conversion is a total function on 16-bit values, given by the
  formula \<open>(r << 11) | (g6 << 5) | b\<close> with \<open>r\<close> = bits 14-10, \<open>g\<close> = bits 9-5, \<open>b\<close> = bits
  4-0 and \<open>g6 = (g << 1) | (g >> 4)\<close>; bit by bit it is the spec's description
  (\<open>spec565_bit\<close>); bit 15 of the input has no influence; \<open>0x0000\<close> maps to \<open>0x0000\<close> and
  \<open>0x7FFF\<close> to \<open>0xFFFF\<close>.  A \<^verbatim>\<open>runFrame\<close> that steps the core (not paused, instance
  present) on a picture of at least one full frame returns, keeps the framebuffer size and
  leaves every one of the \<open>320 * 240\<close> pixels of the framebuffer equal to the conversion of
  the corresponding pixel of the core's picture.
\<close>

theorem pixel_conversion:
  "color565_of c =
     push_bit 11 (drop_bit 10 c AND 0x1F)
       OR push_bit 5 (push_bit 1 (drop_bit 5 c AND 0x1F) OR drop_bit 4 (drop_bit 5 c AND 0x1F))
       OR (c AND 0x1F)
   \<and> (\<forall>n. bit (color565_of c) n = spec565_bit c n)
   \<and> color565_of (c AND 0x7FFF) = color565_of c
   \<and> color565_of 0x0000 = 0x0000
   \<and> color565_of 0x7FFF = 0xFFFF
   \<and> (\<not> m_paused s \<and> m_emulator s = Some e \<and> length (m_framebuffer s) = FRAMEBUFFER_SIZE
        \<and> FRAMEBUFFER_SIZE \<le> length (GetPicture ops (RunFrame ops e))
      \<longrightarrow> (\<exists>s'. runFrame ops now s = Inr s'
             \<and> length (m_framebuffer s') = FRAMEBUFFER_SIZE
             \<and> (\<forall>i < DISPLAY_WIDTH * DISPLAY_HEIGHT.
                   load16 (m_framebuffer s') i
                     = color565_of (load16 (GetPicture ops (RunFrame ops e)) i))))"
proof -
  have formula: "color565_of c =
     push_bit 11 (drop_bit 10 c AND 0x1F)
       OR push_bit 5 (push_bit 1 (drop_bit 5 c AND 0x1F) OR drop_bit 4 (drop_bit 5 c AND 0x1F))
       OR (c AND 0x1F)"
    by (simp only: color565_of_def Let_def)
  have black: "color565_of 0x0000 = 0x0000" by (simp add: color565_of_def)
  have white: "color565_of 0x7FFF = 0xFFFF" by (simp add: color565_of_def)
  have frame: "\<exists>s'. runFrame ops now s = Inr s'
             \<and> length (m_framebuffer s') = FRAMEBUFFER_SIZE
             \<and> (\<forall>i < DISPLAY_WIDTH * DISPLAY_HEIGHT.
                   load16 (m_framebuffer s') i
                     = color565_of (load16 (GetPicture ops (RunFrame ops e)) i))"
    if a: "\<not> m_paused s" "m_emulator s = Some e" "length (m_framebuffer s) = FRAMEBUFFER_SIZE"
      "FRAMEBUFFER_SIZE \<le> length (GetPicture ops (RunFrame ops e))"
  proof -
    let ?pic = "GetPicture ops (RunFrame ops e)"
    let ?n = "DISPLAY_WIDTH * DISPLAY_HEIGHT"
    let ?fb = "convert_loop ?pic ?n 0 (m_framebuffer s)"
    have two: "2 * ?n = FRAMEBUFFER_SIZE" by (simp add: FRAMEBUFFER_SIZE_def)
    have conv: "convertFramebufferRGB555toRGB565 ?pic (m_framebuffer s) ?n = Inr ?fb"
      using a two by (simp add: convertFramebufferRGB555toRGB565_def)
    have run: "runFrame ops now s =
        Inr (updateFPS now (s\<lparr>m_emulator := Some (RunFrame ops e), m_framebuffer := ?fb,
                               m_audioBuffer := GetAudio ops (RunFrame ops e)\<rparr>))"
      using a conv by (simp add: runFrame_def Let_def)
    have fb: "m_framebuffer (updateFPS now t) = m_framebuffer t" for t :: "'a AndroidEmulator"
      by (simp add: updateFPS_def Let_def)
    have "\<forall>i < ?n. load16 ?fb i = color565_of (load16 ?pic i)"
      using a two by (simp add: load16_convert_loop)
    then show ?thesis
      unfolding run using a by (simp add: fb length_convert_loop)
  qed
  have bits: "\<forall>n. bit (color565_of c) n = spec565_bit c n"
    by (simp add: color565_of_bit)
  have frame': "\<not> m_paused s \<and> m_emulator s = Some e \<and> length (m_framebuffer s) = FRAMEBUFFER_SIZE
        \<and> FRAMEBUFFER_SIZE \<le> length (GetPicture ops (RunFrame ops e))
      \<longrightarrow> (\<exists>s'. runFrame ops now s = Inr s'
             \<and> length (m_framebuffer s') = FRAMEBUFFER_SIZE
             \<and> (\<forall>i < DISPLAY_WIDTH * DISPLAY_HEIGHT.
                   load16 (m_framebuffer s') i
                     = color565_of (load16 (GetPicture ops (RunFrame ops e)) i)))"
    using frame by (intro impI) (elim conjE)
  from formula bits color565_of_top_bit [of c] black white frame'
  show ?thesis by (intro conjI)

qed



theorem pixel_conversion_witness:
  "\<not> m_paused stub_emulator \<and> m_emulator stub_emulator = Some 0
   \<and> length (m_framebuffer stub_emulator) = FRAMEBUFFER_SIZE
   \<and> FRAMEBUFFER_SIZE \<le> length (GetPicture stub_core (RunFrame stub_core 0))
   \<and> (\<exists>s'. runFrame stub_core 16 stub_emulator = Inr s'
          \<and> length (m_framebuffer s') = FRAMEBUFFER_SIZE
          \<and> load16 (m_framebuffer s') 7
                = color565_of (load16 (GetPicture stub_core (RunFrame stub_core 0)) 7))"
proof -
  have hyps: "\<not> m_paused stub_emulator \<and> m_emulator stub_emulator = Some 0
      \<and> length (m_framebuffer stub_emulator) = FRAMEBUFFER_SIZE
      \<and> FRAMEBUFFER_SIZE \<le> length (GetPicture stub_core (RunFrame stub_core 0))"
    by (simp add: stub_emulator_def AndroidEmulator_new_def stub_core_def FRAMEBUFFER_SIZE_def
        DISPLAY_WIDTH_def DISPLAY_HEIGHT_def)
  have seven: "7 < DISPLAY_WIDTH * DISPLAY_HEIGHT"
    by (simp add: DISPLAY_WIDTH_def DISPLAY_HEIGHT_def)
  from pixel_conversion [of 0 stub_emulator 0 stub_core 16] hyps
  obtain s' where "runFrame stub_core 16 stub_emulator = Inr s'"
    and "length (m_framebuffer s') = FRAMEBUFFER_SIZE"
    and "\<forall>i < DISPLAY_WIDTH * DISPLAY_HEIGHT. load16 (m_framebuffer s') i
          = color565_of (load16 (GetPicture stub_core (RunFrame stub_core 0)) i)"
    by blast
  with seven hyps show ?thesis by blast
qed

text \<open>
  Claim C5.  The audio conversion maps each sample \<open>u\<close> to \<open>u XOR 0x8000\<close>, sample by
  sample in the same order and with the same count; this is \<open>u - 32768\<close>, both as a 16-bit
  word and as the signed value the host reads; XOR with \<open>0x8000\<close> again gives \<open>u\<close> back;
  \<open>0x0000\<close> maps to \<open>0x8000\<close> and \<open>0xFFFF\<close> to \<open>0x7FFF\<close>.  When an instance exists, the
  sample count fits a \<^verbatim>\<open>jsize\<close> and the array can be allocated, \<^verbatim>\<open>nativeGetAudioSamples\<close>
  returns exactly the converted samples of the core's audio.
\<close>

theorem audio_conversion:
  "audio_convert audio = map audio_convert_sample audio
   \<and> length (audio_convert audio) = length audio
   \<and> audio_convert_sample u = u XOR 0x8000
   \<and> audio_convert_sample u = u - 0x8000
   \<and> sint (audio_convert_sample u) = uint u - 32768
   \<and> audio_convert_sample u XOR 0x8000 = u
   \<and> audio_convert_sample 0x0000 = 0x8000
   \<and> audio_convert_sample 0xFFFF = 0x7FFF
   \<and> (g_vsmile st = Some c \<and> length (GetAudio ops c) < 2 ^ 31
        \<and> alloc_ok env (int (length (GetAudio ops c)))
      \<longrightarrow> nativeGetAudioSamples ops env st = Some (map audio_convert_sample (GetAudio ops c)))"
proof -
  have invol: "audio_convert_sample u XOR 0x8000 = u"
    by (simp add: audio_convert_sample_def xor.assoc)
  have lo: "audio_convert_sample 0x0000 = 0x8000" by (simp add: audio_convert_sample_def)
  have hi: "audio_convert_sample 0xFFFF = 0x7FFF" by (simp add: audio_convert_sample_def)
  have len: "length (audio_convert audio) = length audio" by (simp add: audio_convert_map)
  have def: "audio_convert_sample u = u XOR 0x8000" by (simp add: audio_convert_sample_def)
  have entry: "g_vsmile st = Some c \<and> length (GetAudio ops c) < 2 ^ 31
        \<and> alloc_ok env (int (length (GetAudio ops c)))
      \<longrightarrow> nativeGetAudioSamples ops env st = Some (map audio_convert_sample (GetAudio ops c))"
    using nativeGetAudioSamples_present [of st c ops env] by (intro impI) (elim conjE)
  from audio_convert_map [of audio] len def audio_convert_sample_minus [of u]
    sint_audio_convert_sample [of u] invol lo hi entry
  show ?thesis by (intro conjI)
qed

theorem audio_conversion_witness:
  "g_vsmile stub_bridge = Some 5 \<and> length (GetAudio stub_core 5) < 2 ^ 31
   \<and> alloc_ok stub_env (int (length (GetAudio stub_core 5)))
   \<and> nativeGetAudioSamples stub_core stub_env stub_bridge = Some [0x8000, 0x7FFF]"
proof -
  have hyps: "g_vsmile stub_bridge = Some 5 \<and> length (GetAudio stub_core 5) < 2 ^ 31
      \<and> alloc_ok stub_env (int (length (GetAudio stub_core 5)))"
    by (simp add: stub_bridge_def stub_core_def stub_env_def)
  have "map audio_convert_sample (GetAudio stub_core 5) = [0x8000, 0x7FFF]"
    by (simp add: stub_core_def audio_convert_sample_def)
  with audio_conversion [of "[]" 0 stub_bridge 5 stub_core stub_env] hyps
  show ?thesis by simp
qed

section \<open>Lifecycle and frame pump\<close>

lemma runFrame_paused: "m_paused s \<Longrightarrow> runFrame ops now s = Inr s"
  by (simp add: runFrame_def split: option.split)

lemma runFrame_no_instance: "m_emulator s = None \<Longrightarrow> runFrame ops now s = Inr s"
  by (simp add: runFrame_def)

lemma runFrames_paused: "m_paused s \<Longrightarrow> runFrames ops ts s = Inr s"
  by (induction ts) (simp_all add: runFrame_paused)

lemma runFrames_no_instance: "m_emulator s = None \<Longrightarrow> runFrames ops ts s = Inr s"
  by (induction ts) (simp_all add: runFrame_no_instance)

text \<open>
  Claim C6.  \<^verbatim>\<open>runFrame\<close> does nothing when the object is paused or holds no instance:
  after \<^verbatim>\<open>pause()\<close>, any number of \<^verbatim>\<open>runFrame()\<close> calls, whatever the clock reads, return
  and leave the whole object as \<^verbatim>\<open>pause()\<close> left it, and \<^verbatim>\<open>pause()\<close> itself changes neither
  the framebuffer, the audio buffer, the FPS value, the frame counter, the FPS timestamp
  nor the instance, so the core is not stepped.  The same holds for an object without an
  instance, and \<^verbatim>\<open>nativeRunFrame\<close> leaves the globals as they are when \<^verbatim>\<open>g_vsmile\<close> is
  empty.
\<close>

theorem runFrame_noop:
  "runFrames ops ts (pause s) = Inr (pause s)
   \<and> m_framebuffer (pause s) = m_framebuffer s
   \<and> m_audioBuffer (pause s) = m_audioBuffer s
   \<and> m_currentFPS (pause s) = m_currentFPS s
   \<and> m_frameCount (pause s) = m_frameCount s
   \<and> m_fpsUpdateTime (pause s) = m_fpsUpdateTime s
   \<and> m_emulator (pause s) = m_emulator s
   \<and> runFrames ops ts (s\<lparr>m_emulator := None\<rparr>) = Inr (s\<lparr>m_emulator := None\<rparr>)
   \<and> nativeRunFrame ops (st\<lparr>g_vsmile := None\<rparr>) = st\<lparr>g_vsmile := None\<rparr>"
proof -
  have "runFrames ops ts (pause s) = Inr (pause s)"
    by (rule runFrames_paused) (simp add: pause_def)
  moreover have "runFrames ops ts (s\<lparr>m_emulator := None\<rparr>) = Inr (s\<lparr>m_emulator := None\<rparr>)"
    by (rule runFrames_no_instance) simp
  moreover have "nativeRunFrame ops (st\<lparr>g_vsmile := None\<rparr>) = st\<lparr>g_vsmile := None\<rparr>"
    by (simp add: nativeRunFrame_def)
  ultimately show ?thesis by (simp add: pause_def)
qed

text \<open>
  Claim C7.  When no instance exists, every operation other than init does nothing or
  returns a null result: \<^verbatim>\<open>nativeRunFrame\<close>, \<^verbatim>\<open>nativeSendInput\<close> and
  \<^verbatim>\<open>nativePressOnButton\<close> (and \<^verbatim>\<open>nativeDestroy\<close>) leave the globals unchanged,
  \<^verbatim>\<open>nativeGetFrameBuffer\<close> and
  \<^verbatim>\<open>nativeGetAudioSamples\<close> return null, and on an AndroidEmulator object without an
  instance \<^verbatim>\<open>runFrame\<close>, \<^verbatim>\<open>updateInput\<close> and \<^verbatim>\<open>reset\<close> leave the object unchanged.
\<close>

theorem no_instance_noop:
  assumes "g_vsmile st = None" and "m_emulator s = None"
  shows "nativeRunFrame ops st = st
   \<and> nativeGetFrameBuffer ops env st = None
   \<and> nativeGetAudioSamples ops env st = None
   \<and> nativeSendInput ops enter help back abc red yellow blue green joyX joyY st = st
   \<and> nativePressOnButton ops pressed st = st
   \<and> nativeDestroy st = st
   \<and> runFrame ops now s = Inr s
   \<and> updateInput ops input s = s
   \<and> reset ops s = s"
proof -
  from assms(1) have "st\<lparr>g_vsmile := None\<rparr> = st"
    by (cases st) simp
  then have "nativeDestroy st = st" by (simp add: nativeDestroy_def)
  with assms show ?thesis
    by (simp add: nativeRunFrame_def nativeGetFrameBuffer_def nativeGetAudioSamples_def
        nativeSendInput_def nativePressOnButton_def runFrame_def updateInput_def reset_def)
qed

theorem no_instance_noop_witness:
  "g_vsmile (bridge_start :: nat bridge_state) = None
   \<and> m_emulator (AndroidEmulator_new 0 :: nat AndroidEmulator) = None
   \<and> nativeRunFrame stub_core bridge_start = bridge_start
   \<and> nativeGetFrameBuffer stub_core stub_env bridge_start = None
   \<and> nativeGetAudioSamples stub_core stub_env bridge_start = None
   \<and> nativeSendInput stub_core True False False False False False False False 5 0 bridge_start
        = bridge_start
   \<and> nativePressOnButton stub_core True bridge_start = bridge_start
   \<and> nativeDestroy (bridge_start :: nat bridge_state) = bridge_start
   \<and> runFrame stub_core 16 (AndroidEmulator_new 0) = Inr (AndroidEmulator_new 0)
   \<and> reset stub_core (AndroidEmulator_new 0) = AndroidEmulator_new 0"
proof -
  have a: "g_vsmile (bridge_start :: nat bridge_state) = None"
    by (simp add: bridge_start_def)
  have b: "m_emulator (AndroidEmulator_new 0 :: nat AndroidEmulator) = None"
    by (simp add: AndroidEmulator_new_def)
  from no_instance_noop [OF a b, of stub_core stub_env True False False False False False False
      False 5 0 True 16] a b
  show ?thesis by simp
qed

lemma destroy_times_Suc: "g_vsmile (destroy_times (Suc n) st) = None"
  by (induction n arbitrary: st) (simp_all add: nativeDestroy_def)

text \<open>
  Claim C9.  \<^verbatim>\<open>nativeDestroy\<close> is a total function on the globals (it has no failing
  branch); after it no instance exists; a second call changes nothing more; the same holds
  after any positive number of calls in a row; and on the globals of a process that never
  initialised it changes nothing.
\<close>

theorem nativeDestroy_idempotent:
  "g_vsmile (nativeDestroy st) = None
   \<and> nativeDestroy (nativeDestroy st) = nativeDestroy st
   \<and> g_vsmile (destroy_times (Suc n) st) = None
   \<and> nativeDestroy bridge_start = bridge_start"
  using destroy_times_Suc [of n st] by (simp add: nativeDestroy_def bridge_start_def)

text \<open>
  Claim C2.  When a system ROM is supplied and its length differs from
  \<^verbatim>\<open>sizeof(VSmile::SysRomType)\<close>, \<^verbatim>\<open>nativeInit\<close> returns false and the globals, a
  previously created instance included, are exactly as before, whatever the other
  arguments are.
\<close>

theorem nativeInit_sysrom_size:
  assumes "sysrom = Some sysrom_bytes" and "length sysrom_bytes \<noteq> sizeof_SysRomType"
  shows "nativeInit ops sysrom cartrom cartSize usePAL st = Inr (False, st)"
  using assms by (simp add: nativeInit_def Let_def)

theorem nativeInit_sysrom_size_witness:
  "length [0 :: 8 word] \<noteq> sizeof_SysRomType
   \<and> nativeInit stub_core (Some [0]) (Some [0]) 1 False stub_bridge = Inr (False, stub_bridge)"
proof -
  have a: "length [0 :: 8 word] \<noteq> sizeof_SysRomType"
    by (simp add: sizeof_SysRomType_def SysRomType_size_def sizeof_word_t_def)
  from nativeInit_sysrom_size [OF refl a, of stub_core "Some [0]" 1 False stub_bridge] a
  show ?thesis by simp
qed

text \<open>
  The dummy system ROM that \<^verbatim>\<open>nativeInit\<close> builds when no system ROM is supplied: zero,
  except for \<open>0x31\<close> in the odd-indexed words from \<open>0xfffc1\<close> to \<open>0xfffdb\<close>.
\<close>

lemma dummy_boot_loop_nth:
  "dummy_boot_loop i d k = (if i < k \<and> k \<le> 0xfffdc \<and> odd (k - i) then 0x31 else d k)"
proof (induction i d rule: dummy_boot_loop.induct)
  case (1 i d)
  show ?case
  proof (cases "i < 0xfffdc")
    case False
    then show ?thesis by (subst dummy_boot_loop.simps) auto
  next
    case True
    have step: "dummy_boot_loop i d = dummy_boot_loop (i + 2) (d(i + 1 := 0x31))"
      using True by (subst dummy_boot_loop.simps) simp
    have split: "(i < k \<and> k \<le> 0xfffdc \<and> odd (k - i))
        \<longleftrightarrow> k = i + 1 \<or> (i + 2 < k \<and> k \<le> 0xfffdc \<and> odd (k - (i + 2)))"
    proof (cases "k \<le> i + 2")
      case True
      then consider "k \<le> i" | "k = i + 1" | "k = i + 2" by linarith
      then show ?thesis using \<open>i < 0xfffdc\<close> by cases simp_all
    next
      case False
      then have "k - i = Suc (Suc (k - (i + 2)))" by simp
      with False show ?thesis by simp
    qed
    show ?thesis
      unfolding step "1.IH" [OF True] split by auto
  qed
qed

lemma dummy_rom_words:
  "dummy_boot_loop 0xfffc0 (fill zero_rom 0) k
     = (if 0xfffc0 < k \<and> k \<le> 0xfffdc \<and> odd k then 0x31 else 0)"
proof -
  have "0xfffc0 < k \<Longrightarrow> odd (k - 0xfffc0) = odd k"
    by simp
  then show ?thesis by (auto simp add: dummy_boot_loop_nth fill_def)
qed

text \<open>
  Claim C3.  Whenever \<^verbatim>\<open>nativeInit\<close> returns true, the core's constructor has returned an
  instance \<open>c\<close> (built from a system ROM image, the cartridge image, the fixed cartridge
  type and region code, and the timing chosen by \<^verbatim>\<open>usePAL\<close>), and the global instance is
  now \<open>Reset c\<close>: the newly constructed instance, reset, in place of whatever was there.
\<close>

theorem nativeInit_success:
  assumes "nativeInit ops sysrom cartrom cartSize usePAL st = Inr (True, st')"
  shows "\<exists>sys crt c.
           VSmile_new ops (Some sys) crt STANDARD None 0xe True (if usePAL then PAL else NTSC) = Inr c
           \<and> st' = st\<lparr>g_vsmile := Some (Reset ops c)\<rparr>"
  using assms
  by (auto simp add: nativeInit_def Let_def split: option.splits if_splits sum.splits)

theorem nativeInit_success_witness:
  "nativeInit stub_core None (Some [0]) 1 False stub_bridge
     = Inr (True, stub_bridge\<lparr>g_vsmile := Some 1\<rparr>)
   \<and> (\<exists>sys crt c.
         VSmile_new stub_core (Some sys) crt STANDARD None 0xe True NTSC = Inr c
         \<and> stub_bridge\<lparr>g_vsmile := Some 1\<rparr> = stub_bridge\<lparr>g_vsmile := Some (Reset stub_core c)\<rparr>)"
proof -
  have a: "nativeInit stub_core None (Some [0]) 1 False stub_bridge
     = Inr (True, stub_bridge\<lparr>g_vsmile := Some 1\<rparr>)"
    by (simp add: nativeInit_def Let_def stub_core_def sizeof_CartRomType_def
        CartRomType_size_def sizeof_word_t_def)
  from nativeInit_success [OF a] a show ?thesis by simp
qed

text \<open>
  Claim C1.  For a null cartridge buffer \<^verbatim>\<open>nativeInit\<close> does not return false: it has no
  null test and calls \<^verbatim>\<open>GetByteArrayElements\<close> and \<^verbatim>\<open>GetArrayLength\<close> on the null
  reference (jni_bridge.cpp, lines 95-96), which JNI leaves undefined; the call below, with
  no system ROM and no cartridge, ends there, as does every such call.  The wrapper's
  \<^verbatim>\<open>AndroidEmulator::initialize\<close> does test the pointer and returns false with the object
  unchanged.
\<close>

theorem nativeInit_null_cartridge:
  "nativeInit stub_core None None 0 False stub_bridge = Inl NullArray
   \<and> nativeInit ops None None cartSize usePAL st = Inl NullArray
   \<and> initialize ops biosData None timing s = (False, s)"
  by (simp add: nativeInit_def initialize_def Let_def)

text \<open>
  For a cartridge array that is not null, \<^verbatim>\<open>nativeInit\<close> acts on its length as follows.
  Assume the core's constructor succeeds on every ROM image.  Then \<^verbatim>\<open>nativeInit\<close> returns
  true whenever the system ROM is absent or has exactly the expected size and the
  cartridge length \<open>s\<close> satisfies \<open>0 < s \<le> sizeof(CartRomType)\<close>; it returns false, with the
  globals unchanged, when the cartridge length is \<open>0\<close> or exceeds \<open>sizeof(CartRomType)\<close>;
  and whenever it returns false the globals are unchanged.
\<close>

lemma nativeInit_cartridge:
  assumes construct: "\<forall>sys crt t. \<exists>c. VSmile_new ops sys crt STANDARD None 0xe True t = Inr c"
  shows "((sysrom = None \<or> (\<exists>b. sysrom = Some b \<and> length b = sizeof_SysRomType))
            \<and> 0 < length cart \<and> length cart \<le> sizeof_CartRomType
          \<longrightarrow> (\<exists>st'. nativeInit ops sysrom (Some cart) cartSize usePAL st = Inr (True, st')))
       \<and> (length cart = 0 \<or> sizeof_CartRomType < length cart
          \<longrightarrow> nativeInit ops sysrom (Some cart) cartSize usePAL st = Inr (False, st))
       \<and> (\<forall>r st'. nativeInit ops sysrom cartrom cartSize usePAL st = Inr (r, st') \<and> \<not> r
            \<longrightarrow> st' = st)"
proof (intro conjI impI allI)
  assume a: "(sysrom = None \<or> (\<exists>b. sysrom = Some b \<and> length b = sizeof_SysRomType))
            \<and> 0 < length cart \<and> length cart \<le> sizeof_CartRomType"
  let ?t = "if usePAL then PAL else NTSC"
  show "\<exists>st'. nativeInit ops sysrom (Some cart) cartSize usePAL st = Inr (True, st')"
  proof (cases sysrom)
    case None
    from construct obtain c where
      "VSmile_new ops (Some (dummy_boot_loop 0xfffc0 (fill zero_rom 0)))
         (memcpy_words (fill zero_rom 0) cart (length cart)) STANDARD None 0xe True ?t = Inr c"
      by blast
    with a None show ?thesis by (simp add: nativeInit_def Let_def)
  next
    case (Some b)
    with a have len: "length b = sizeof_SysRomType" by simp
    from construct obtain c where
      "VSmile_new ops (Some (memcpy_words zero_rom b (length b)))
         (memcpy_words (fill zero_rom 0) cart (length cart)) STANDARD None 0xe True ?t = Inr c"
      by blast
    with a Some len show ?thesis by (simp add: nativeInit_def Let_def)
  qed
next
  assume "length cart = 0 \<or> sizeof_CartRomType < length cart"
  then show "nativeInit ops sysrom (Some cart) cartSize usePAL st = Inr (False, st)"
    by (auto simp add: nativeInit_def Let_def split: option.splits)
next
  fix r st'
  assume "nativeInit ops sysrom cartrom cartSize usePAL st = Inr (r, st') \<and> \<not> r"
  then show "st' = st"
    by (auto simp add: nativeInit_def Let_def split: option.splits if_splits sum.splits)
qed

text \<open>
  The wrapper's own \<^verbatim>\<open>AndroidEmulator::initialize\<close> tests the cartridge pointer and size
  only: it rejects a null or empty cartridge, and accepts every other one, copying at most
  the slot size; it stores the instance as constructed.
\<close>

lemma initialize_rejects:
  "romData = None \<or> romData = Some [] \<Longrightarrow> initialize ops biosData romData timing s = (False, s)"
  by (auto simp add: initialize_def)

lemma initialize_accepts:
  assumes "\<forall>sys crt. \<exists>c. VSmile_new ops sys crt STANDARD None 0xe True timing = Inr c"
    and "rom_bytes \<noteq> []"
  shows "\<exists>c. initialize ops biosData (Some rom_bytes) timing s = (True, s\<lparr>m_emulator := Some c\<rparr>)"
proof -
  let ?sys = "(case biosData of
                     None \<Rightarrow> None
                   | Some bios_bytes \<Rightarrow>
                       if length bios_bytes > 0
                       then Some (memcpy_words zero_rom bios_bytes
                                    (min (length bios_bytes) (SysRomType_size * sizeof_word_t)))
                       else None)"
  from assms(1) obtain c where
    "VSmile_new ops ?sys (memcpy_words zero_rom rom_bytes
        (min (length rom_bytes) (CartRomType_size * sizeof_word_t))) STANDARD None 0xe True timing = Inr c"
    by blast
  with assms(2)
  have "initialize ops biosData (Some rom_bytes) timing s = (True, s\<lparr>m_emulator := Some c\<rparr>)"
    by (simp add: initialize_def Let_def)
  then show ?thesis by (rule exI)
qed

section \<open>FPS counter and framebuffer invariants\<close>

lemma FRAMEBUFFER_SIZE_value: "FRAMEBUFFER_SIZE = 153600"
  by (simp add: FRAMEBUFFER_SIZE_def DISPLAY_WIDTH_def DISPLAY_HEIGHT_def)







lemma bitlen_ge_1: "0 < n \<Longrightarrow> 1 \<le> bitlen n"
  using bitlen_eq_zero_iff [of n] bitlen_nonneg [of n] by linarith

text \<open>
  The two parts of the rounding do what they are meant to: \<open>round_half_even\<close> is within one
  half of the quotient, and \<open>floor_log2\<close> is the binary exponent of the quotient.
\<close>

lemma round_half_even_error:
  assumes "0 < d"
  shows "2 * \<bar>round_half_even n d * d - n\<bar> \<le> d"
proof -
  have n: "n = n div d * d + n mod d" by simp
  have r: "0 \<le> n mod d" "n mod d < d" using assms by simp_all
  have up: "(n div d + 1) * d - n = d - n mod d"
    using n by (simp add: algebra_simps)
  have down: "n div d * d - n = - (n mod d)"
    using n by (simp add: algebra_simps)
  show ?thesis
    using r up down by (auto simp add: round_half_even_def Let_def)
qed

lemma two_power_nat_powr: "0 \<le> k \<Longrightarrow> real_of_int (2 ^ nat k) = 2 powr real_of_int k"
proof -
  assume "0 \<le> k"
  then have "real_of_int k = real (nat k)" by simp
  then show ?thesis by (simp only: powr_realpow zero_less_numeral) simp
qed

lemma bitlen_real_bounds:
  assumes "0 < n"
  shows "2 powr real_of_int (bitlen n - 1) \<le> real_of_int n"
    and "real_of_int n < 2 powr real_of_int (bitlen n)"
proof -
  from assms have b: "0 \<le> bitlen n - 1" "0 \<le> bitlen n"
    using bitlen_ge_1 [of n] by simp_all
  from bitlen_bounds [OF assms] have "2 ^ nat (bitlen n - 1) \<le> n" and "n < 2 ^ nat (bitlen n)"
    by simp_all
  then have "real_of_int (2 ^ nat (bitlen n - 1)) \<le> real_of_int n"
    and "real_of_int n < real_of_int (2 ^ nat (bitlen n))"
    by (simp_all only: of_int_le_iff of_int_less_iff)
  then show "2 powr real_of_int (bitlen n - 1) \<le> real_of_int n"
    and "real_of_int n < 2 powr real_of_int (bitlen n)"
    by (simp_all only: two_power_nat_powr [OF b(1)] two_power_nat_powr [OF b(2)])
qed


lemma floor_log2_test:
  "(if 0 \<le> k then n < d * 2 ^ nat k else n * 2 ^ nat (- k) < d)
      \<longleftrightarrow> real_of_int n < real_of_int d * 2 powr real_of_int k"
proof (cases "0 \<le> k")
  case True
  have "(n < d * 2 ^ nat k) = (real_of_int n < real_of_int (d * 2 ^ nat k))"
    by (simp only: of_int_less_iff)
  also have "\<dots> = (real_of_int n < real_of_int d * real_of_int (2 ^ nat k))"
    by (simp only: of_int_mult)
  also have "\<dots> = (real_of_int n < real_of_int d * 2 powr real_of_int k)"
    by (simp only: two_power_nat_powr [OF True])
  finally show ?thesis using True by simp
next
  case False
  then have nk: "0 \<le> - k" by simp
  have "(n * 2 ^ nat (- k) < d) = (real_of_int (n * 2 ^ nat (- k)) < real_of_int d)"
    by (simp only: of_int_less_iff)
  also have "\<dots> = (real_of_int n * real_of_int (2 ^ nat (- k)) < real_of_int d)"
    by (simp only: of_int_mult)
  also have "\<dots> = (real_of_int n * 2 powr real_of_int (- k) < real_of_int d)"
    by (simp only: two_power_nat_powr [OF nk])
  also have "\<dots> = (real_of_int n < real_of_int d * 2 powr real_of_int k)"
    by (simp add: powr_minus field_simps)
  finally show ?thesis using False by simp
qed

lemma floor_log2_bounds:
  assumes "0 < n" and "0 < d"
  shows "real_of_int d * 2 powr real_of_int (floor_log2 n d) \<le> real_of_int n
    \<and> real_of_int n < real_of_int d * 2 powr real_of_int (floor_log2 n d + 1)"
proof -
  define k where "k = bitlen n - bitlen d"
  note nb = bitlen_real_bounds [OF assms(1)]
  note db = bitlen_real_bounds [OF assms(2)]
  have lo: "real_of_int d * 2 powr real_of_int (k - 1) \<le> real_of_int n"
  proof -
    have "real_of_int d * 2 powr real_of_int (k - 1)
        \<le> 2 powr real_of_int (bitlen d) * 2 powr real_of_int (k - 1)"
      using db(2) by (intro mult_right_mono) simp_all
    also have "\<dots> = 2 powr real_of_int (bitlen n - 1)"
      by (simp add: k_def powr_add [symmetric])
    finally show ?thesis using nb(1) by linarith
  qed
  have hi: "real_of_int n < real_of_int d * 2 powr real_of_int (k + 1)"
  proof -
    have "2 powr real_of_int (bitlen n) = 2 powr real_of_int (bitlen d - 1) * 2 powr real_of_int (k + 1)"
      by (simp add: k_def powr_add [symmetric])
    also have "\<dots> \<le> real_of_int d * 2 powr real_of_int (k + 1)"
      using db(1) by (intro mult_right_mono) simp_all
    finally show ?thesis using nb(2) by linarith
  qed
  show ?thesis
  proof (cases "real_of_int n < real_of_int d * 2 powr real_of_int k")
    case True
    then have "floor_log2 n d = k - 1"
      by (simp add: floor_log2_def Let_def k_def [symmetric] floor_log2_test)
    with lo True show ?thesis by simp
  next
    case False
    then have "floor_log2 n d = k"
      by (simp add: floor_log2_def Let_def k_def [symmetric] floor_log2_test)
    with hi False show ?thesis by simp
  qed
qed





























lemma runFrame_active:
  assumes "\<not> m_paused s" and "m_emulator s = Some e"
    and "length (m_framebuffer s) = FRAMEBUFFER_SIZE"
    and "FRAMEBUFFER_SIZE \<le> length (GetPicture ops (RunFrame ops e))"
  shows "runFrame ops now s =
     Inr (updateFPS now
            (s\<lparr>m_emulator := Some (RunFrame ops e),
               m_framebuffer := convert_loop (GetPicture ops (RunFrame ops e))
                                  (DISPLAY_WIDTH * DISPLAY_HEIGHT) 0 (m_framebuffer s),
               m_audioBuffer := GetAudio ops (RunFrame ops e)\<rparr>))"
proof -
  have "2 * (DISPLAY_WIDTH * DISPLAY_HEIGHT) = FRAMEBUFFER_SIZE"
    by (simp add: FRAMEBUFFER_SIZE_def)
  with assms(3,4)
  have "convertFramebufferRGB555toRGB565 (GetPicture ops (RunFrame ops e)) (m_framebuffer s)
          (DISPLAY_WIDTH * DISPLAY_HEIGHT)
        = Inr (convert_loop (GetPicture ops (RunFrame ops e)) (DISPLAY_WIDTH * DISPLAY_HEIGHT) 0
                 (m_framebuffer s))"
    by (simp add: convertFramebufferRGB555toRGB565_def)
  with assms(1,2) show ?thesis by (simp add: runFrame_def Let_def)
qed

lemma m_framebuffer_updateFPS: "m_framebuffer (updateFPS now s) = m_framebuffer s"
  by (simp add: updateFPS_def Let_def)

lemma m_audioBuffer_updateFPS: "m_audioBuffer (updateFPS now s) = m_audioBuffer s"
  by (simp add: updateFPS_def Let_def)

lemma runFrame_length:
  assumes "runFrame ops now s = Inr s'"
  shows "length (m_framebuffer s') = length (m_framebuffer s)"
  using assms
  by (auto simp: runFrame_def Let_def convertFramebufferRGB555toRGB565_def
      m_framebuffer_updateFPS length_convert_loop split: option.splits sum.splits if_splits)

lemma do_call_length:
  assumes "do_call ops c s = Inr s'"
  shows "length (m_framebuffer s') = length (m_framebuffer s)"
proof (cases c)
  case (RunFrameAt now)
  with assms show ?thesis by (simp add: runFrame_length)
next
  case (Initialize b r t)
  with assms show ?thesis
    by (auto simp: initialize_def Let_def split: option.splits sum.splits if_splits)
next
  case (UpdateInput i)
  with assms show ?thesis by (auto simp: updateInput_def Let_def split: option.splits)
next
  case Pause
  with assms show ?thesis by (auto simp: pause_def)
next
  case Resume
  with assms show ?thesis by (auto simp: resume_def)
next
  case ResetCore
  with assms show ?thesis by (auto simp: reset_def split: option.splits)
next
  case SaveState
  with assms show ?thesis by simp
next
  case (LoadState d)
  with assms show ?thesis by simp
qed

lemma do_calls_length:
  "do_calls ops cs s = Inr s' \<Longrightarrow> length (m_framebuffer s') = length (m_framebuffer s)"
proof (induction cs arbitrary: s)
  case Nil
  then show ?case by simp
next
  case (Cons c cs)
  from Cons.prems obtain s1 where c: "do_call ops c s = Inr s1"
    and rest: "do_calls ops cs s1 = Inr s'"
    by (auto split: sum.splits)
  from rest have "length (m_framebuffer s') = length (m_framebuffer s1)" by (rule Cons.IH)
  with do_call_length [OF c] show ?case by simp
qed

lemma do_call_buffers:
  assumes "do_call ops c s = Inr s'" and "\<not> steps_core c s"
  shows "m_framebuffer s' = m_framebuffer s \<and> m_audioBuffer s' = m_audioBuffer s"
proof (cases c)
  case (RunFrameAt now)
  with assms show ?thesis by (auto simp: runFrame_def split: option.splits)
next
  case (Initialize b r t)
  with assms show ?thesis
    by (auto simp: initialize_def Let_def split: option.splits sum.splits if_splits)
next
  case (UpdateInput i)
  with assms show ?thesis by (auto simp: updateInput_def Let_def split: option.splits)
next
  case Pause
  with assms show ?thesis by (auto simp: pause_def)
next
  case Resume
  with assms show ?thesis by (auto simp: resume_def)
next
  case ResetCore
  with assms show ?thesis by (auto simp: reset_def split: option.splits)
next
  case SaveState
  with assms show ?thesis by simp
next
  case (LoadState d)
  with assms show ?thesis by simp
qed

lemma do_calls_buffers:
  "do_calls ops cs s = Inr s' \<Longrightarrow> no_frame_yet ops cs s
   \<Longrightarrow> m_framebuffer s' = m_framebuffer s \<and> m_audioBuffer s' = m_audioBuffer s"
proof (induction cs arbitrary: s)
  case Nil
  then show ?case by simp
next
  case (Cons c cs)
  from Cons.prems(1) obtain s1 where c: "do_call ops c s = Inr s1"
    and rest: "do_calls ops cs s1 = Inr s'"
    by (auto split: sum.splits)
  from Cons.prems(2) c have quiet: "\<not> steps_core c s" and later: "no_frame_yet ops cs s1"
    by (auto split: if_splits)
  from rest later have "m_framebuffer s' = m_framebuffer s1 \<and> m_audioBuffer s' = m_audioBuffer s1"
    by (rule Cons.IH)
  with do_call_buffers [OF c quiet] show ?case by simp
qed

lemma do_call_returns:
  assumes "\<forall>e. FRAMEBUFFER_SIZE \<le> length (GetPicture ops e)"
    and "length (m_framebuffer s) = FRAMEBUFFER_SIZE"
  shows "\<exists>s'. do_call ops c s = Inr s'"
proof (cases c)
  case (RunFrameAt now)
  show ?thesis
  proof (cases "m_paused s \<or> m_emulator s = None")
    case True
    then have "runFrame ops now s = Inr s" by (auto simp: runFrame_def split: option.splits)
    with RunFrameAt show ?thesis by simp
  next
    case False
    then obtain e where "m_emulator s = Some e" and "\<not> m_paused s" by auto
    moreover from assms(1) have "FRAMEBUFFER_SIZE \<le> length (GetPicture ops (RunFrame ops e))"
      by simp
    ultimately show ?thesis using assms(2) RunFrameAt by (simp add: runFrame_active)
  qed
qed simp_all

lemma do_calls_returns:
  "\<forall>e. FRAMEBUFFER_SIZE \<le> length (GetPicture ops e) \<Longrightarrow> length (m_framebuffer s) = FRAMEBUFFER_SIZE
   \<Longrightarrow> \<exists>s'. do_calls ops cs s = Inr s'"
proof (induction cs arbitrary: s)
  case Nil
  then show ?case by simp
next
  case (Cons c cs)
  from do_call_returns [OF Cons.prems] obtain s1 where c: "do_call ops c s = Inr s1" ..
  with Cons.prems(2) have "length (m_framebuffer s1) = FRAMEBUFFER_SIZE"
    by (simp add: do_call_length)
  with Cons.prems(1) obtain s' where "do_calls ops cs s1 = Inr s'"
    using Cons.IH by blast
  with c show ?case by simp
qed

text \<open>
  Claim C10.  After any sequence of calls on a new AndroidEmulator object, the framebuffer
  that \<^verbatim>\<open>getFramebuffer\<close> and \<^verbatim>\<open>getFramebufferSize\<close> expose has exactly
  \<open>320 * 240 * 2 = 153600\<close> bytes; as long as no call of the sequence has stepped the core
  (the empty sequence included), it is all zero and \<^verbatim>\<open>getAudioSampleCount\<close> is \<open>0\<close>.  When
  the core's picture always holds a full frame, every sequence of calls returns.
\<close>

theorem framebuffer_size_fixed:
  "(do_calls ops cs (AndroidEmulator_new t0) = Inr s
      \<longrightarrow> getFramebufferSize s = 153600
          \<and> length (getFramebuffer s) = 320 * 240 * 2
          \<and> (no_frame_yet ops cs (AndroidEmulator_new t0)
               \<longrightarrow> getFramebuffer s = replicate 153600 0 \<and> getAudioSampleCount s = 0))
   \<and> ((\<forall>e. 153600 \<le> length (GetPicture ops e))
        \<longrightarrow> (\<exists>s. do_calls ops cs (AndroidEmulator_new t0) = Inr s))"
proof (intro conjI impI)
  assume run: "do_calls ops cs (AndroidEmulator_new t0) = Inr s"
  from do_calls_length [OF run]
  show "getFramebufferSize s = 153600" and "length (getFramebuffer s) = 320 * 240 * 2"
    by (simp_all add: getFramebufferSize_def getFramebuffer_def AndroidEmulator_new_def
        FRAMEBUFFER_SIZE_value)
  assume "no_frame_yet ops cs (AndroidEmulator_new t0)"
  with run have "m_framebuffer s = m_framebuffer (AndroidEmulator_new t0 :: 'a AndroidEmulator)
      \<and> m_audioBuffer s = m_audioBuffer (AndroidEmulator_new t0 :: 'a AndroidEmulator)"
    by (rule do_calls_buffers)
  then show "getFramebuffer s = replicate 153600 0" and "getAudioSampleCount s = 0"
    by (simp_all add: getFramebuffer_def getAudioSampleCount_def AndroidEmulator_new_def
        FRAMEBUFFER_SIZE_value)
next
  assume "\<forall>e. 153600 \<le> length (GetPicture ops e)"
  then have "\<forall>e. FRAMEBUFFER_SIZE \<le> length (GetPicture ops e)"
    by (simp add: FRAMEBUFFER_SIZE_value)
  moreover have "length (m_framebuffer (AndroidEmulator_new t0 :: 'a AndroidEmulator)) = FRAMEBUFFER_SIZE"
    by (simp add: AndroidEmulator_new_def)
  ultimately show "\<exists>s. do_calls ops cs (AndroidEmulator_new t0) = Inr s"
    by (rule do_calls_returns)
qed



theorem framebuffer_size_fixed_witness:
  "no_frame_yet stub_core stub_calls (AndroidEmulator_new 0)
   \<and> (\<forall>e. 153600 \<le> length (GetPicture stub_core e))
   \<and> (\<exists>s. do_calls stub_core stub_calls (AndroidEmulator_new 0) = Inr s
          \<and> getFramebufferSize s = 153600
          \<and> getFramebuffer s = replicate 153600 0
          \<and> getAudioSampleCount s = 0)"
proof -
  have quiet: "no_frame_yet stub_core stub_calls (AndroidEmulator_new 0)"
    by (simp add: stub_calls_def AndroidEmulator_new_def runFrame_def pause_def resume_def
        initialize_def reset_def stub_core_def Let_def)
  have pic: "\<forall>e. 153600 \<le> length (GetPicture stub_core e)"
    by (simp add: stub_core_def)
  from framebuffer_size_fixed [of stub_core stub_calls 0] pic
  obtain s where run: "do_calls stub_core stub_calls (AndroidEmulator_new 0) = Inr s"
    by blast
  from framebuffer_size_fixed [of stub_core stub_calls 0 s] run quiet
  have "getFramebufferSize s = 153600 \<and> getFramebuffer s = replicate 153600 0
      \<and> getAudioSampleCount s = 0"
    by blast
  with run quiet pic show ?thesis by blast
qed


end
